theory Spec2Isabelle
  imports Main "HOL-Library.Word"
begin

section \<open>Errors, panics and results\<close>

text \<open>
  Go's \<open>int\<close> on a 64-bit platform: addition and subtraction wrap, comparisons with
  zero are signed.
\<close>

type_synonym go_int = "64 word"

text \<open>
  Error values. The three sentinels are the package-level errors the repository names;
  \<open>ErrOther\<close> stands for any error of a collaborator (store, identifier generator,
  payload codec, domain model); \<open>Errorf c e\<close> is \<open>fmt.Errorf("c: %w", e)\<close>, a new
  error that wraps \<open>e\<close>.
\<close>

datatype err =
    ErrAggregateDoesNotExist
  | ErrAggregateAlreadyExists
  | ErrConcurrentUpdate
  | ErrOther string
  | Errorf string err

text \<open>\<open>errors.Is\<close>: the target is compared with the error and with everything it wraps.\<close>

fun errors_Is :: "err \<Rightarrow> err \<Rightarrow> bool" where
  "errors_Is (Errorf c e) target = (Errorf c e = target \<or> errors_Is e target)"
| "errors_Is e target = (e = target)"

text \<open>
  A panic is not an error value: no \<open>if err != nil\<close> sees it, it unwinds through
  every caller. \<open>PanicValue\<close> is \<open>panic(v)\<close> of the program, \<open>PanicRuntime\<close> a
  run-time error of the language (nil map write, nil dereference).
\<close>

datatype panic = PanicValue string | PanicRuntime string

datatype failure = Error err | Panicked panic

section \<open>Events and aggregates\<close>

text \<open>A metadata value is an \<open>any\<close>; only whether it is a string matters to the code.\<close>

datatype mvalue = MString string | MOther string

type_synonym Metadata = "string \<rightharpoonup> mvalue"

text \<open>The record the loop of \<open>Save\<close> fills in, field by field.\<close>

record 'any Event =
  ID :: string
  AggregateID :: string
  AggregateVersion :: go_int
  Timestamp :: int
  Metadata :: Metadata
  Data :: 'any

text \<open>The aggregate, with the five fields \<open>Load\<close> initialises.\<close>

record ('root, 'sc) Aggregate =
  aggregate_id :: string
  version :: go_int
  root :: 'root
  stateChanges :: "'sc list"
  causationIDs :: "string set"

text \<open>
  Modelled from the spec: the accessors \<open>Version()\<close> and \<open>ID()\<close> of Aggregate are not
  in the source files at hand; they return the version and the identity.
\<close>

definition Version :: "('root, 'sc) Aggregate \<Rightarrow> go_int" where
  "Version agg = version agg"

definition AggID :: "('root, 'sc) Aggregate \<Rightarrow> string" where
  "AggID agg = aggregate_id agg"

text \<open>
  Modelled from the spec: the metadata key constant \<open>CausationID\<close> and
  \<open>MetadataFromContext\<close> are not in the source files at hand. The context carries a
  metadata bag that is copied verbatim onto every event of one Save.
\<close>

definition CausationID :: string where
  "CausationID = ''causation_id''"

record Context =
  ctx_metadata :: Metadata

definition MetadataFromContext :: "Context \<Rightarrow> Metadata" where
  "MetadataFromContext ctx = ctx_metadata ctx"

section \<open>The collaborators of the repository\<close>

text \<open>
  Everything the repository calls through an interface or an external package is a
  parameter: the EventStore (\<open>ListEvents\<close>, \<open>SaveEvents\<close> over a store state \<open>'s\<close>),
  \<open>uuid.NewRandom\<close> and \<open>time.Now\<close> (the n-th call's answer), the payload codec
  (\<open>anypb.New\<close>, \<open>UnmarshalNew\<close>) and the aggregate root (\<open>new(T)\<close>,
  \<open>ApplyStateChange\<close>, which may panic, and \<open>ProcessCommand\<close>).
\<close>

record ('s, 'any, 'sc, 'root, 'cmd) repo =
  ListEvents :: "'s \<Rightarrow> string \<Rightarrow> err + 'any Event list"
  SaveEvents :: "'s \<Rightarrow> string \<Rightarrow> go_int \<Rightarrow> 'any Event list \<Rightarrow> err option \<times> 's"
  uuid_NewRandom :: "nat \<Rightarrow> err + string"
  time_Now :: "nat \<Rightarrow> int"
  anypb_New :: "'sc \<Rightarrow> err + 'any"
  UnmarshalNew :: "'any \<Rightarrow> err + 'sc"
  new_T :: 'root
  ApplyStateChange :: "'root \<Rightarrow> 'sc \<Rightarrow> panic + 'root"
  ProcessCommand :: "'root \<Rightarrow> 'cmd \<Rightarrow> err + 'sc list"

text \<open>The calls made on the EventStore, in order.\<close>

datatype 'any call =
    CallListEvents string
  | CallSaveEvents string go_int "'any Event list"

text \<open>
  The world outside the aggregate: the store, how many identifiers and timestamps have
  been drawn, and the log of store calls.
\<close>

record ('s, 'any) world =
  store :: 's
  uuid_count :: nat
  clock :: nat
  calls :: "'any call list"

section \<open>AggregateRepository.Save\<close>

text \<open>
  The loop of \<open>Save\<close> over \<open>agg.stateChanges\<close>: \<open>i\<close> is the index, \<open>events\<close> the
  slice built so far. An identifier or codec failure returns from \<open>Save\<close> at once.
\<close>

fun build_events ::
  "('s, 'any, 'sc, 'root, 'cmd) repo \<Rightarrow> Metadata \<Rightarrow> string \<Rightarrow> go_int \<Rightarrow> nat \<Rightarrow> 'sc list \<Rightarrow>
   ('s, 'any) world \<Rightarrow> 'any Event list \<Rightarrow> (err + 'any Event list) \<times> ('s, 'any) world" where
  "build_events r metadata aid originalVersion i [] st events = (Inr events, st)"
| "build_events r metadata aid originalVersion i (stateChange # rest) st events =
     (let st1 = st\<lparr>uuid_count := Suc (uuid_count st)\<rparr> in
      case uuid_NewRandom r (uuid_count st) of
        Inl e \<Rightarrow> (Inl (Errorf ''generate event ID'' e), st1)
      | Inr ident \<Rightarrow>
          (case anypb_New r stateChange of
             Inl e \<Rightarrow> (Inl (Errorf ''marshal state change'' e), st1)
           | Inr data \<Rightarrow>
               build_events r metadata aid originalVersion (Suc i) rest
                 (st1\<lparr>clock := Suc (clock st1)\<rparr>)
                 (events @ [\<lparr>ID = ident, AggregateID = aid,
                             AggregateVersion = originalVersion + of_nat i + 1,
                             Timestamp = time_Now r (clock st1),
                             Metadata = metadata, Data = data\<rparr>])))"

text \<open>
  \<open>Save\<close> returns the error (\<open>None\<close> is nil), the aggregate as it leaves it and the
  world.
\<close>

definition Save ::
  "('s, 'any, 'sc, 'root, 'cmd) repo \<Rightarrow> Context \<Rightarrow> ('root, 'sc) Aggregate \<Rightarrow> ('s, 'any) world \<Rightarrow>
   err option \<times> ('root, 'sc) Aggregate \<times> ('s, 'any) world" where
  "Save r ctx agg st =
     (if length (stateChanges agg) = 0 then (None, agg, st)
      else
        let originalVersion = Version agg - of_nat (length (stateChanges agg));
            metadata = MetadataFromContext ctx
        in case build_events r metadata (AggID agg) originalVersion 0 (stateChanges agg) st [] of
             (Inl e, st1) \<Rightarrow> (Some e, agg, st1)
           | (Inr events, st1) \<Rightarrow>
               (let st2 = st1\<lparr>calls := calls st1 @ [CallSaveEvents (AggID agg) originalVersion events]\<rparr>
                in case SaveEvents r (store st2) (AggID agg) originalVersion events of
                     (Some e, s') \<Rightarrow> (Some (Errorf ''save events'' e), agg, st2\<lparr>store := s'\<rparr>)
                   | (None, s') \<Rightarrow> (None, agg\<lparr>stateChanges := []\<rparr>, st2\<lparr>store := s'\<rparr>)))"

section \<open>AggregateRepository.Load\<close>

text \<open>
  The loop of \<open>Load\<close> over the listed events, on the three variables it updates:
  \<open>root\<close>, \<open>version\<close> and \<open>causationIDs\<close>. A payload that does not decode is an
  error return; a panic of \<open>ApplyStateChange\<close> unwinds.
\<close>

fun replay ::
  "('s, 'any, 'sc, 'root, 'cmd) repo \<Rightarrow> 'any Event list \<Rightarrow> 'root \<times> go_int \<times> string set \<Rightarrow>
   failure + 'root \<times> go_int \<times> string set" where
  "replay r [] acc = Inr acc"
| "replay r (event # events) (rt, ver, cids) =
     (case UnmarshalNew r (Data event) of
        Inl e \<Rightarrow> Inl (Error (Errorf ''unmarshal state change'' e))
      | Inr stateChange \<Rightarrow>
          (case ApplyStateChange r rt stateChange of
             Inl p \<Rightarrow> Inl (Panicked p)
           | Inr rt' \<Rightarrow>
               replay r events
                 (rt', AggregateVersion event,
                  (case Metadata event CausationID of
                     Some (MString i) \<Rightarrow> insert i cids
                   | _ \<Rightarrow> cids))))"

definition Load ::
  "('s, 'any, 'sc, 'root, 'cmd) repo \<Rightarrow> string \<Rightarrow> ('s, 'any) world \<Rightarrow>
   (failure + ('root, 'sc) Aggregate) \<times> ('s, 'any) world" where
  "Load r ident st =
     (let st1 = st\<lparr>calls := calls st @ [CallListEvents ident]\<rparr> in
      case ListEvents r (store st1) ident of
        Inl e \<Rightarrow> (Inl (Error (Errorf ''list events'' e)), st1)
      | Inr events \<Rightarrow>
          (case replay r events (new_T r, 0, {}) of
             Inl f \<Rightarrow> (Inl f, st1)
           | Inr (rt, ver, cids) \<Rightarrow>
               (Inr \<lparr>aggregate_id = ident, version = ver, root = rt,
                     stateChanges = [], causationIDs = cids\<rparr>, st1)))"

section \<open>Aggregate.ChangeState\<close>

text \<open>
  Modelled from the spec: \<open>Aggregate.ChangeState\<close> is not in the source files at hand.
  It runs \<open>ProcessCommand\<close> on the root and, for each resulting state change in order,
  applies it to the root, moves the version to the next one and appends the change to
  the pending ones; when \<open>ProcessCommand\<close> fails it fails with that error and the
  aggregate is as before.
\<close>

fun track_state_changes ::
  "('s, 'any, 'sc, 'root, 'cmd) repo \<Rightarrow> ('root, 'sc) Aggregate \<Rightarrow> 'sc list \<Rightarrow>
   failure + ('root, 'sc) Aggregate" where
  "track_state_changes r agg [] = Inr agg"
| "track_state_changes r agg (stateChange # rest) =
     (case ApplyStateChange r (root agg) stateChange of
        Inl p \<Rightarrow> Inl (Panicked p)
      | Inr rt' \<Rightarrow>
          track_state_changes r
            (agg\<lparr>root := rt', version := version agg + 1,
                 stateChanges := stateChanges agg @ [stateChange]\<rparr>) rest)"

definition ChangeState ::
  "('s, 'any, 'sc, 'root, 'cmd) repo \<Rightarrow> Context \<Rightarrow> ('root, 'sc) Aggregate \<Rightarrow> 'cmd \<Rightarrow>
   failure + ('root, 'sc) Aggregate" where
  "ChangeState r ctx agg cmd =
     (case ProcessCommand r (root agg) cmd of
        Inl e \<Rightarrow> Inl (Error e)
      | Inr scs \<Rightarrow> track_state_changes r agg scs)"

section \<open>Get, Create, GetOrCreate, Update\<close>

definition Get ::
  "('s, 'any, 'sc, 'root, 'cmd) repo \<Rightarrow> string \<Rightarrow> ('s, 'any) world \<Rightarrow>
   (failure + ('root, 'sc) Aggregate) \<times> ('s, 'any) world" where
  "Get r ident st =
     (case Load r ident st of
        (Inl f, st1) \<Rightarrow> (Inl f, st1)
      | (Inr agg, st1) \<Rightarrow>
          (if Version agg = 0 then (Inl (Error ErrAggregateDoesNotExist), st1)
           else (Inr agg, st1)))"

text \<open>
  The prologue that \<open>Create\<close> and \<open>GetOrCreate\<close> share word for word: an empty id is
  replaced by a random one.
\<close>

definition default_id ::
  "('s, 'any, 'sc, 'root, 'cmd) repo \<Rightarrow> string \<Rightarrow> ('s, 'any) world \<Rightarrow>
   (err + string) \<times> ('s, 'any) world" where
  "default_id r ident st =
     (if ident = '''' then
        (case uuid_NewRandom r (uuid_count st) of
           Inl e \<Rightarrow> (Inl (Errorf ''generate ID'' e), st\<lparr>uuid_count := Suc (uuid_count st)\<rparr>)
         | Inr randomID \<Rightarrow> (Inr randomID, st\<lparr>uuid_count := Suc (uuid_count st)\<rparr>))
      else (Inr ident, st))"

text \<open>How a caller wraps a failed callee: an error gets the context, a panic passes.\<close>

fun wrap :: "string \<Rightarrow> failure \<Rightarrow> failure" where
  "wrap c (Error e) = Error (Errorf c e)"
| "wrap c (Panicked p) = Panicked p"

definition Create ::
  "('s, 'any, 'sc, 'root, 'cmd) repo \<Rightarrow> Context \<Rightarrow> string \<Rightarrow> 'cmd \<Rightarrow> ('s, 'any) world \<Rightarrow>
   (failure + ('root, 'sc) Aggregate) \<times> ('s, 'any) world" where
  "Create r ctx ident0 cmd st =
     (case default_id r ident0 st of
        (Inl e, st0) \<Rightarrow> (Inl (Error e), st0)
      | (Inr ident, st0) \<Rightarrow>
          (case Load r ident st0 of
             (Inl f, st1) \<Rightarrow> (Inl (wrap ''load'' f), st1)
           | (Inr agg, st1) \<Rightarrow>
               (if Version agg \<noteq> 0 then (Inl (Error ErrAggregateAlreadyExists), st1)
                else
                  (case ChangeState r ctx agg cmd of
                     Inl f \<Rightarrow> (Inl (wrap ''change state'' f), st1)
                   | Inr agg1 \<Rightarrow>
                       (case Save r ctx agg1 st1 of
                          (Some e, agg2, st2) \<Rightarrow>
                            (if errors_Is e ErrConcurrentUpdate
                             then (Inl (Error ErrAggregateAlreadyExists), st2)
                             else (Inl (Error (Errorf ''save'' e)), st2))
                        | (None, agg2, st2) \<Rightarrow> (Inr agg2, st2))))))"

definition GetOrCreate ::
  "('s, 'any, 'sc, 'root, 'cmd) repo \<Rightarrow> Context \<Rightarrow> string \<Rightarrow> 'cmd \<Rightarrow> ('s, 'any) world \<Rightarrow>
   (failure + ('root, 'sc) Aggregate) \<times> ('s, 'any) world" where
  "GetOrCreate r ctx ident0 cmd st =
     (case default_id r ident0 st of
        (Inl e, st0) \<Rightarrow> (Inl (Error e), st0)
      | (Inr ident, st0) \<Rightarrow>
          (case Load r ident st0 of
             (Inl f, st1) \<Rightarrow> (Inl (wrap ''load'' f), st1)
           | (Inr agg, st1) \<Rightarrow>
               (if 0 <s Version agg then (Inr agg, st1)
                else
                  (case ChangeState r ctx agg cmd of
                     Inl f \<Rightarrow> (Inl (wrap ''change state'' f), st1)
                   | Inr agg1 \<Rightarrow>
                       (case Save r ctx agg1 st1 of
                          (Some e, agg2, st2) \<Rightarrow>
                            (if errors_Is e ErrConcurrentUpdate
                             then (case Load r ident st2 of
                                     (Inl f, st3) \<Rightarrow> (Inl (wrap ''load'' f), st3)
                                   | (Inr agg3, st3) \<Rightarrow> (Inr agg3, st3))
                             else (Inl (Error (Errorf ''save'' e)), st2))
                        | (None, agg2, st2) \<Rightarrow> (Inr agg2, st2))))))"

definition Update ::
  "('s, 'any, 'sc, 'root, 'cmd) repo \<Rightarrow> Context \<Rightarrow> string \<Rightarrow> 'cmd \<Rightarrow> ('s, 'any) world \<Rightarrow>
   (failure + ('root, 'sc) Aggregate) \<times> ('s, 'any) world" where
  "Update r ctx ident cmd st =
     (case Load r ident st of
        (Inl f, st1) \<Rightarrow> (Inl (wrap ''load'' f), st1)
      | (Inr agg, st1) \<Rightarrow>
          (if Version agg = 0 then (Inl (Error ErrAggregateDoesNotExist), st1)
           else
             (case ChangeState r ctx agg cmd of
                Inl f \<Rightarrow> (Inl (wrap ''change state'' f), st1)
              | Inr agg1 \<Rightarrow>
                  (case Save r ctx agg1 st1 of
                     (Some e, agg2, st2) \<Rightarrow> (Inl (Error (Errorf ''save'' e)), st2)
                   | (None, agg2, st2) \<Rightarrow> (Inr agg2, st2)))))"

section \<open>The Book model: ApplyStateChange\<close>

text \<open>
  The types behind \<open>Book\<close> are protobuf-generated or declared beside it; their fields
  are the ones \<open>book.go\<close> reads and writes. An account type is a protobuf enum number.
\<close>

type_synonym AccountType = int

record Account =
  name :: string
  type_ :: AccountType
  balance :: int

record Transaction =
  tx_Timestamp :: int
  tx_AccountDebited :: string
  tx_AccountCredited :: string
  tx_Amount :: int

text \<open>
  \<open>accounts\<close> is a Go map: \<open>None\<close> is the nil map of a zero-value Book, which can be
  read (every key is absent) but not written.
\<close>

record Book =
  created :: bool
  closed :: bool
  description :: string
  transactions :: "Transaction list"
  accounts :: "(string \<rightharpoonup> Account) option"

text \<open>
  A state-change payload is a protobuf message behind an interface. The four messages
  the type switch names carry their fields; \<open>OtherMessage\<close> is a message of any other
  type, with its type name. The timestamp of a transaction is a pointer, nil as \<open>None\<close>.
\<close>

datatype StateChange =
    BookCreated string
  | BookClosed
  | BookAccountAdded string AccountType
  | BookTransactionEntered "int option" string string int int int
  | OtherMessage string

text \<open>\<open>Timestamp.AsTime()\<close>: the nil timestamp reads as the epoch.\<close>

fun AsTime :: "int option \<Rightarrow> int" where
  "AsTime None = 0"
| "AsTime (Some t) = t"

definition applyCreated :: "Book \<Rightarrow> string \<Rightarrow> panic + Book" where
  "applyCreated b d = Inr (b\<lparr>created := True, description := d, accounts := Some Map.empty\<rparr>)"

definition applyClosed :: "Book \<Rightarrow> panic + Book" where
  "applyClosed b = Inr (b\<lparr>closed := True\<rparr>)"

text \<open>Writing a key of the nil map panics.\<close>

definition applyAccountAdded :: "Book \<Rightarrow> string \<Rightarrow> AccountType \<Rightarrow> panic + Book" where
  "applyAccountAdded b n t =
     (case accounts b of
        None \<Rightarrow> Inl (PanicRuntime ''assignment to entry in nil map'')
      | Some m \<Rightarrow> Inr (b\<lparr>accounts := Some (m(n \<mapsto> \<lparr>name = n, type_ = t, balance = 0\<rparr>))\<rparr>))"

text \<open>
  \<open>b.accounts[k]\<close> read: the account pointer, nil (\<open>None\<close>) when the key is absent or
  the map is nil.
\<close>

definition account_at :: "Book \<Rightarrow> string \<Rightarrow> Account option" where
  "account_at b k = (case accounts b of None \<Rightarrow> None | Some m \<Rightarrow> m k)"

text \<open>Assigning the balance through the pointer stored under \<open>k\<close>; nil panics.\<close>

definition set_balance :: "Book \<Rightarrow> string \<Rightarrow> int \<Rightarrow> panic + Book" where
  "set_balance b k v =
     (case accounts b of
        None \<Rightarrow> Inl (PanicRuntime ''invalid memory address or nil pointer dereference'')
      | Some m \<Rightarrow>
          (case m k of
             None \<Rightarrow> Inl (PanicRuntime ''invalid memory address or nil pointer dereference'')
           | Some a \<Rightarrow> Inr (b\<lparr>accounts := Some (m(k \<mapsto> a\<lparr>balance := v\<rparr>))\<rparr>)))"

definition applyTransactionEntered ::
  "Book \<Rightarrow> int option \<Rightarrow> string \<Rightarrow> string \<Rightarrow> int \<Rightarrow> int \<Rightarrow> int \<Rightarrow> panic + Book" where
  "applyTransactionEntered b ts debited credited amount debitedNew creditedNew =
     (case set_balance b debited debitedNew of
        Inl p \<Rightarrow> Inl p
      | Inr b1 \<Rightarrow>
          (case set_balance b1 credited creditedNew of
             Inl p \<Rightarrow> Inl p
           | Inr b2 \<Rightarrow>
               Inr (b2\<lparr>transactions := transactions b2 @
                         [\<lparr>tx_Timestamp = AsTime ts, tx_AccountDebited = debited,
                           tx_AccountCredited = credited, tx_Amount = amount\<rparr>]\<rparr>)))"

text \<open>The type switch; its default branch is the panic with the payload's type name.\<close>

fun Book_ApplyStateChange :: "Book \<Rightarrow> StateChange \<Rightarrow> panic + Book" where
  "Book_ApplyStateChange b (BookCreated d) = applyCreated b d"
| "Book_ApplyStateChange b BookClosed = applyClosed b"
| "Book_ApplyStateChange b (BookAccountAdded n t) = applyAccountAdded b n t"
| "Book_ApplyStateChange b (BookTransactionEntered ts debited credited amount dn cn) =
     applyTransactionEntered b ts debited credited amount dn cn"
| "Book_ApplyStateChange b (OtherMessage T) =
     Inl (PanicValue (''unexpected state change: '' @ T))"

text \<open>The payload types the switch of \<open>ApplyStateChange\<close> names.\<close>

fun handled :: "StateChange \<Rightarrow> bool" where
  "handled (OtherMessage T) = False"
| "handled sc = True"

text \<open>The zero-value Book, \<open>new(Book)\<close>.\<close>

definition zero_Book :: Book where
  "zero_Book = \<lparr>created = False, closed = False, description = '''', transactions = [],
                accounts = None\<rparr>"

text \<open>
  What a payload needs of the Book to be applied without a run-time panic: the map it
  writes is allocated, the accounts it writes through exist.
\<close>

fun applicable :: "Book \<Rightarrow> StateChange \<Rightarrow> bool" where
  "applicable b (BookAccountAdded n t) = (accounts b \<noteq> None)"
| "applicable b (BookTransactionEntered ts debited credited amount dn cn) =
     (account_at b debited \<noteq> None \<and> account_at b credited \<noteq> None)"
| "applicable b sc = True"

section \<open>Replay as the spec words it\<close>

text \<open>The state changes folded, in order, into a root; a panic stops the fold.\<close>

fun fold_ApplyStateChange ::
  "('s, 'any, 'sc, 'root, 'cmd) repo \<Rightarrow> 'root \<Rightarrow> 'sc list \<Rightarrow> panic + 'root" where
  "fold_ApplyStateChange r rt [] = Inr rt"
| "fold_ApplyStateChange r rt (sc # scs) =
     (case ApplyStateChange r rt sc of
        Inl p \<Rightarrow> Inl p
      | Inr rt' \<Rightarrow> fold_ApplyStateChange r rt' scs)"

text \<open>The causation identifier an event's metadata carries, if it carries one.\<close>

definition causation_of :: "'any Event \<Rightarrow> string set" where
  "causation_of event =
     (case Metadata event CausationID of Some (MString i) \<Rightarrow> {i} | _ \<Rightarrow> {})"

definition seen_causation_ids :: "'any Event list \<Rightarrow> string set" where
  "seen_causation_ids events = \<Union> (set (map causation_of events))"

section \<open>An in-memory store and a Book repository to run the model on\<close>

text \<open>
  Modelled from the spec: the in-memory EventStore is not in the source files at hand.
  \<open>ListEvents\<close> returns the stream of the id, empty for an unknown id. \<open>SaveEvents\<close>
  appends the events when the stream has exactly \<open>expectedVersion\<close> events, and
  otherwise fails with the concurrency conflict and appends nothing.
\<close>

type_synonym 'any mem_store = "string \<Rightarrow> 'any Event list"

definition mem_ListEvents :: "'any mem_store \<Rightarrow> string \<Rightarrow> err + 'any Event list" where
  "mem_ListEvents s ident = Inr (s ident)"

definition mem_SaveEvents ::
  "'any mem_store \<Rightarrow> string \<Rightarrow> go_int \<Rightarrow> 'any Event list \<Rightarrow> err option \<times> 'any mem_store" where
  "mem_SaveEvents s ident expectedVersion events =
     (if of_nat (length (s ident)) = expectedVersion
      then (None, s(ident := s ident @ events))
      else (Some ErrConcurrentUpdate, s))"

text \<open>
  A store on which another writer is racing: the rival's events reach the stream
  between this caller's Load and its SaveEvents.
\<close>

definition raced_SaveEvents ::
  "'any Event list \<Rightarrow> 'any mem_store \<Rightarrow> string \<Rightarrow> go_int \<Rightarrow> 'any Event list \<Rightarrow>
   err option \<times> 'any mem_store" where
  "raced_SaveEvents rival s ident expectedVersion events =
     mem_SaveEvents (s(ident := s ident @ rival)) ident expectedVersion events"

text \<open>
  A repository of Books over that store. Payloads are stored undecoded, the n-th
  identifier is \<open>id\<close> followed by n marks, the n-th reading of the clock is n, and a
  command is the list of state changes it asks for.
\<close>

definition book_repo ::
  "StateChange Event list \<Rightarrow>
   (StateChange mem_store, StateChange, StateChange, Book, StateChange list) repo" where
  "book_repo rival =
     \<lparr>ListEvents = mem_ListEvents,
      SaveEvents = raced_SaveEvents rival,
      uuid_NewRandom = (\<lambda>n. Inr (''id'' @ replicate n (CHR ''+''))),
      time_Now = int,
      anypb_New = Inr,
      UnmarshalNew = Inr,
      new_T = zero_Book,
      ApplyStateChange = Book_ApplyStateChange,
      ProcessCommand = (\<lambda>b cmd. Inr cmd)\<rparr>"

definition no_ctx :: Context where
  "no_ctx = \<lparr>ctx_metadata = Map.empty\<rparr>"

definition empty_world :: "(StateChange mem_store, StateChange) world" where
  "empty_world = \<lparr>store = (\<lambda>ident. []), uuid_count = 0, clock = 0, calls = []\<rparr>"

text \<open>The first event of a book, as a Save of its creation stores it.\<close>

definition created_event :: "StateChange Event" where
  "created_event =
     \<lparr>ID = ''e1'', AggregateID = ''book-1'', AggregateVersion = 1, Timestamp = 0,
      Metadata = [CausationID \<mapsto> MString ''c1''], Data = BookCreated ''ledger''\<rparr>"

definition closed_event :: "StateChange Event" where
  "closed_event =
     \<lparr>ID = ''e2'', AggregateID = ''book-1'', AggregateVersion = 2, Timestamp = 1,
      Metadata = Map.empty, Data = BookClosed\<rparr>"

text \<open>A world whose store holds the book with one event.\<close>

definition book_world :: "(StateChange mem_store, StateChange) world" where
  "book_world = \<lparr>store = (\<lambda>ident. if ident = ''book-1'' then [created_event] else []),
                 uuid_count = 0, clock = 0, calls = []\<rparr>"

text \<open>A world whose store holds the book created and closed: two events.\<close>

definition closed_book_world :: "(StateChange mem_store, StateChange) world" where
  "closed_book_world =
     \<lparr>store = (\<lambda>ident. if ident = ''book-1'' then [created_event, closed_event] else []),
      uuid_count = 0, clock = 0, calls = []\<rparr>"

definition closed_book :: Book where
  "closed_book = \<lparr>created = True, closed = True, description = ''ledger'', transactions = [],
                  accounts = Some Map.empty\<rparr>"

text \<open>A new book with its creation applied and pending: version 1, nothing stored.\<close>

definition pending_book :: "(Book, StateChange) Aggregate" where
  "pending_book =
     \<lparr>aggregate_id = ''book-1'', version = 1,
      root = \<lparr>created = True, closed = False, description = ''ledger'', transactions = [],
               accounts = Some Map.empty\<rparr>,
      stateChanges = [BookCreated ''ledger''], causationIDs = {}\<rparr>"

text \<open>The book as Load finds it before anything is stored, and once its creation is.\<close>

definition new_book :: "(Book, StateChange) Aggregate" where
  "new_book = \<lparr>aggregate_id = ''book-1'', version = 0, root = zero_Book, stateChanges = [],
               causationIDs = {}\<rparr>"

definition stored_book :: "(Book, StateChange) Aggregate" where
  "stored_book = pending_book\<lparr>stateChanges := [], causationIDs := {''c1''}\<rparr>"

text \<open>The stored book with its closing applied and pending: version 2.\<close>

definition closing_book :: "(Book, StateChange) Aggregate" where
  "closing_book = stored_book\<lparr>version := 2, root := closed_book, stateChanges := [BookClosed]\<rparr>"

text \<open>A repository whose identifier generator is out of entropy.\<close>

definition no_entropy_repo ::
  "(StateChange mem_store, StateChange, StateChange, Book, StateChange list) repo" where
  "no_entropy_repo = (book_repo [])\<lparr>uuid_NewRandom := (\<lambda>n. Inl (ErrOther ''entropy''))\<rparr>"

section \<open>Save: the events it builds and the call it makes\<close>

lemma build_events_length:
  "build_events r md aid ov i scs st acc = (Inr events, st1) \<Longrightarrow>
   length events = length acc + length scs"
  by (induction scs arbitrary: i st acc) (auto simp: Let_def split: sum.splits)

lemma build_events_prefix:
  "build_events r md aid ov i scs st acc = (Inr events, st1) \<Longrightarrow> \<exists>more. events = acc @ more"
  by (induction scs arbitrary: i st acc) (fastforce simp: Let_def split: sum.splits)+

lemma build_events_frame:
  "build_events r md aid ov i scs st acc = (res, st1) \<Longrightarrow>
   store st1 = store st \<and> calls st1 = calls st"
  by (induction scs arbitrary: i st acc) (auto simp: Let_def split: sum.splits)

lemma build_events_nth:
  "build_events r md aid ov i scs st acc = (Inr events, st1) \<Longrightarrow> k < length scs \<Longrightarrow>
   AggregateVersion (events ! (length acc + k)) = ov + of_nat (i + k) + 1 \<and>
   AggregateID (events ! (length acc + k)) = aid \<and>
   Metadata (events ! (length acc + k)) = md \<and>
   anypb_New r (scs ! k) = Inr (Data (events ! (length acc + k)))"
proof (induction scs arbitrary: i st acc k)
  case Nil
  then show ?case by simp
next
  case (Cons sc scs)
  from Cons.prems(1) obtain u d where
    u: "uuid_NewRandom r (uuid_count st) = Inr u" and d: "anypb_New r sc = Inr d"
    by (auto simp: Let_def split: sum.splits)
  define e where "e = \<lparr>ID = u, AggregateID = aid, AggregateVersion = ov + of_nat i + 1,
      Timestamp = time_Now r (clock st), Metadata = md, Data = d\<rparr>"
  define st' where "st' = st\<lparr>uuid_count := Suc (uuid_count st), clock := Suc (clock st)\<rparr>"
  have step: "build_events r md aid ov (Suc i) scs st' (acc @ [e]) = (Inr events, st1)"
    using Cons.prems(1) u d by (simp add: Let_def e_def st'_def)
  show ?case
  proof (cases k)
    case 0
    from build_events_prefix [OF step] obtain more where "events = (acc @ [e]) @ more" ..
    then have "events ! length acc = e" by simp
    then show ?thesis using 0 d by (simp add: e_def)
  next
    case (Suc k')
    then have "k' < length scs" using Cons.prems(2) by simp
    from Cons.IH [OF step this] show ?thesis using Suc by simp
  qed
qed

lemma build_events_succeeds:
  "\<forall>k<length scs. \<exists>u. uuid_NewRandom r (uuid_count st + k) = Inr u \<Longrightarrow>
   \<forall>sc\<in>set scs. \<exists>d. anypb_New r sc = Inr d \<Longrightarrow>
   \<exists>events st1. build_events r md aid ov i scs st acc = (Inr events, st1)"
proof (induction scs arbitrary: i st acc)
  case Nil
  then show ?case by simp
next
  case (Cons sc scs)
  from Cons.prems(1) obtain u where u: "uuid_NewRandom r (uuid_count st) = Inr u"
    by fastforce
  from Cons.prems(2) obtain d where d: "anypb_New r sc = Inr d" by auto
  define st' where "st' = st\<lparr>uuid_count := Suc (uuid_count st), clock := Suc (clock st)\<rparr>"
  have "\<forall>k<length scs. \<exists>u. uuid_NewRandom r (uuid_count st' + k) = Inr u"
    using Cons.prems(1) by (auto simp: st'_def)
  moreover have "\<forall>sc\<in>set scs. \<exists>d. anypb_New r sc = Inr d" using Cons.prems(2) by simp
  ultimately obtain events st1 where
    "build_events r md aid ov (Suc i) scs st'
       (acc @ [\<lparr>ID = u, AggregateID = aid, AggregateVersion = ov + of_nat i + 1,
                Timestamp = time_Now r (clock st), Metadata = md, Data = d\<rparr>]) = (Inr events, st1)"
    using Cons.IH by blast
  then show ?case using u d by (simp add: Let_def st'_def)
qed

text \<open>
  C1. An aggregate with pending state changes (identifiers and payload encoding
  succeeding): Save computes the original version as the version minus the number of
  pending changes, builds one event per pending change, in order, the k-th (from 0)
  with aggregate version original + k + 1, makes one SaveEvents call with the original
  version as the expected version, and clears the pending changes when that call
  succeeds.
\<close>

theorem Save_pending:
  assumes pending: "stateChanges agg \<noteq> []"
    and ids: "\<forall>k<length (stateChanges agg). \<exists>u. uuid_NewRandom r (uuid_count st + k) = Inr u"
    and codec: "\<forall>sc\<in>set (stateChanges agg). \<exists>d. anypb_New r sc = Inr d"
  shows "\<exists>events st1.
      length events = length (stateChanges agg) \<and>
      (\<forall>k<length events.
         AggregateVersion (events ! k) =
           (Version agg - of_nat (length (stateChanges agg))) + of_nat k + 1 \<and>
         AggregateID (events ! k) = AggID agg \<and>
         Metadata (events ! k) = MetadataFromContext ctx \<and>
         anypb_New r (stateChanges agg ! k) = Inr (Data (events ! k))) \<and>
      store st1 = store st \<and>
      calls st1 = calls st @
        [CallSaveEvents (AggID agg) (Version agg - of_nat (length (stateChanges agg))) events] \<and>
      Save r ctx agg st =
        (case SaveEvents r (store st) (AggID agg)
                (Version agg - of_nat (length (stateChanges agg))) events of
           (None, s') \<Rightarrow> (None, agg\<lparr>stateChanges := []\<rparr>, st1\<lparr>store := s'\<rparr>)
         | (Some e, s') \<Rightarrow> (Some (Errorf ''save events'' e), agg, st1\<lparr>store := s'\<rparr>))"
proof -
  define ov where "ov = Version agg - of_nat (length (stateChanges agg))"
  from build_events_succeeds [OF ids codec] obtain events st0 where
    b: "build_events r (MetadataFromContext ctx) (AggID agg) ov 0 (stateChanges agg) st [] =
          (Inr events, st0)"
    by blast
  define st1 where "st1 = st0\<lparr>calls := calls st0 @ [CallSaveEvents (AggID agg) ov events]\<rparr>"
  have len: "length events = length (stateChanges agg)"
    using build_events_length [OF b] by simp
  have nth: "\<forall>k<length events.
         AggregateVersion (events ! k) = ov + of_nat k + 1 \<and>
         AggregateID (events ! k) = AggID agg \<and>
         Metadata (events ! k) = MetadataFromContext ctx \<and>
         anypb_New r (stateChanges agg ! k) = Inr (Data (events ! k))"
    using build_events_nth [OF b] len by simp
  have frame: "store st1 = store st" "calls st1 = calls st @ [CallSaveEvents (AggID agg) ov events]"
    using build_events_frame [OF b] by (simp_all add: st1_def)
  have "Save r ctx agg st =
        (case SaveEvents r (store st) (AggID agg) ov events of
           (None, s') \<Rightarrow> (None, agg\<lparr>stateChanges := []\<rparr>, st1\<lparr>store := s'\<rparr>)
         | (Some e, s') \<Rightarrow> (Some (Errorf ''save events'' e), agg, st1\<lparr>store := s'\<rparr>))"
    using pending b frame(1)
    by (simp add: Save_def Let_def ov_def [symmetric] st1_def split: prod.splits option.splits)
  with len nth frame show ?thesis unfolding ov_def by blast
qed

section \<open>Running the model: the defining equations to unfold\<close>

lemmas book_fixture =
  book_repo_def no_ctx_def empty_world_def book_world_def pending_book_def
  closed_book_world_def closed_book_def new_book_def stored_book_def no_entropy_repo_def
  closing_book_def
  created_event_def closed_event_def mem_ListEvents_def mem_SaveEvents_def
  raced_SaveEvents_def zero_Book_def

lemmas repo_defs =
  Save_def Load_def ChangeState_def Version_def AggID_def MetadataFromContext_def Let_def

lemmas book_defs = applyCreated_def applyClosed_def applyAccountAdded_def
  applyTransactionEntered_def set_balance_def account_at_def

section \<open>Save on concrete aggregates, and what Save leaves alone\<close>

theorem Save_pending_witness:
  "stateChanges pending_book \<noteq> [] \<and>
   stateChanges pending_book = [BookCreated ''ledger''] \<and>
   uuid_NewRandom (book_repo []) (uuid_count empty_world) = Inr ''id'' \<and>
   anypb_New (book_repo []) (BookCreated ''ledger'') = Inr (BookCreated ''ledger'') \<and>
   (\<exists>events st1.
      length events = length (stateChanges pending_book) \<and>
      (\<forall>k<length events.
         AggregateVersion (events ! k) =
           (Version pending_book - of_nat (length (stateChanges pending_book))) + of_nat k + 1 \<and>
         AggregateID (events ! k) = AggID pending_book \<and>
         Metadata (events ! k) = MetadataFromContext no_ctx \<and>
         anypb_New (book_repo []) (stateChanges pending_book ! k) = Inr (Data (events ! k))) \<and>
      store st1 = store empty_world \<and>
      calls st1 = calls empty_world @
        [CallSaveEvents (AggID pending_book)
           (Version pending_book - of_nat (length (stateChanges pending_book))) events] \<and>
      Save (book_repo []) no_ctx pending_book empty_world =
        (case SaveEvents (book_repo []) (store empty_world) (AggID pending_book)
                (Version pending_book - of_nat (length (stateChanges pending_book))) events of
           (None, s') \<Rightarrow> (None, pending_book\<lparr>stateChanges := []\<rparr>, st1\<lparr>store := s'\<rparr>)
         | (Some e, s') \<Rightarrow> (Some (Errorf ''save events'' e), pending_book, st1\<lparr>store := s'\<rparr>)))"
proof -
  have h1: "stateChanges pending_book \<noteq> []" by (simp add: pending_book_def)
  have h2: "\<forall>k<length (stateChanges pending_book).
      \<exists>u. uuid_NewRandom (book_repo []) (uuid_count empty_world + k) = Inr u"
    by (simp add: book_repo_def)
  have h3: "\<forall>sc\<in>set (stateChanges pending_book). \<exists>d. anypb_New (book_repo []) sc = Inr d"
    by (simp add: book_repo_def)
  have c: "stateChanges pending_book = [BookCreated ''ledger'']"
    "uuid_NewRandom (book_repo []) (uuid_count empty_world) = Inr ''id''"
    "anypb_New (book_repo []) (BookCreated ''ledger'') = Inr (BookCreated ''ledger'')"
    by (simp_all add: book_fixture)
  from Save_pending [OF h1 h2 h3, of no_ctx] h1 c show ?thesis by blast
qed

text \<open>
  C6. An aggregate with no pending state changes: Save returns success at once; the
  aggregate and the world (the store, and the log of store calls, to which nothing is
  added) are as before, and no failure is possible.
\<close>
theorem Save_nothing_pending:
  "stateChanges agg = [] \<Longrightarrow> Save r ctx agg st = (None, agg, st)"
  by (simp add: Save_def)

theorem Save_nothing_pending_witness:
  "stateChanges (pending_book\<lparr>stateChanges := []\<rparr>) = [] \<and>
   Save (book_repo []) no_ctx (pending_book\<lparr>stateChanges := []\<rparr>) book_world =
     (None, pending_book\<lparr>stateChanges := []\<rparr>, book_world)"
  using Save_nothing_pending [of "pending_book\<lparr>stateChanges := []\<rparr>" "book_repo []" no_ctx book_world]
  by simp

lemma Save_version: "Save r ctx agg st = (res, agg', st') \<Longrightarrow> version agg' = version agg"
  by (auto simp: Save_def Let_def split: if_splits prod.splits sum.splits option.splits)

lemma Save_success_clears:
  "Save r ctx agg st = (None, agg', st') \<Longrightarrow> stateChanges agg' = []"
  by (auto simp: Save_def Let_def split: if_splits prod.splits sum.splits option.splits)

text \<open>
  Against C2 as it is worded: a book with its creation pending has version 1; Save
  succeeds and the version is still 1, not 1 + 1.
\<close>

theorem Save_version_counterexample:
  "fst (Save (book_repo []) no_ctx pending_book empty_world) = None \<and>
   Version (fst (snd (Save (book_repo []) no_ctx pending_book empty_world))) \<noteq>
     Version pending_book + of_nat (length (stateChanges pending_book))"
  by (simp add: book_fixture repo_defs)

lemma Save_success_call:
  assumes "Save r ctx agg st = (None, agg', st')" and "stateChanges agg \<noteq> []"
  shows "\<exists>events.
      length events = length (stateChanges agg) \<and>
      calls st' = calls st @
        [CallSaveEvents (AggID agg) (Version agg - of_nat (length (stateChanges agg))) events] \<and>
      SaveEvents r (store st) (AggID agg)
        (Version agg - of_nat (length (stateChanges agg))) events = (None, store st')"
proof -
  define ov where "ov = Version agg - of_nat (length (stateChanges agg))"
  obtain res st1 where
    b: "build_events r (MetadataFromContext ctx) (AggID agg) ov 0 (stateChanges agg) st [] =
          (res, st1)"
    by (cases "build_events r (MetadataFromContext ctx) (AggID agg) ov 0 (stateChanges agg) st []")
  from assms b obtain events where res: "res = Inr events"
    by (cases res) (auto simp: Save_def Let_def ov_def)
  from build_events_frame [OF b] have fr: "store st1 = store st" "calls st1 = calls st"
    by simp_all
  from build_events_length [OF b [unfolded res]]
  have len: "length events = length (stateChanges agg)" by simp
  obtain sres s' where
    sv: "SaveEvents r (store st) (AggID agg) ov events = (sres, s')"
    by (cases "SaveEvents r (store st) (AggID agg) ov events")
  from assms b res fr sv have "sres = None"
    and st': "st' = st1\<lparr>calls := calls st1 @ [CallSaveEvents (AggID agg) ov events],
                         store := s'\<rparr>"
    by (auto simp: Save_def Let_def ov_def [symmetric] split: option.splits)
  with sv fr len show ?thesis unfolding ov_def by (intro exI [of _ events]) simp
qed

text \<open>
  C2, amended. After a successful Save the version is the version before the Save:
  Save does not touch it, and nothing is pending any more. With nothing pending
  before, the world is as it was. With changes pending before, the store has seen
  exactly one more call, the SaveEvents that succeeded, carrying one event per pending
  change and, as expected version, the version minus the number of pending changes: so
  the version after the Save is the expected version passed to the store plus the
  number of changes that were pending.
\<close>

theorem Save_version_unchanged:
  assumes "Save r ctx agg st = (None, agg', st')"
  shows "Version agg' = Version agg \<and> stateChanges agg' = [] \<and>
         (stateChanges agg = [] \<longrightarrow> st' = st) \<and>
         (stateChanges agg \<noteq> [] \<longrightarrow>
            (\<exists>expected events.
               calls st' = calls st @ [CallSaveEvents (AggID agg) expected events] \<and>
               SaveEvents r (store st) (AggID agg) expected events = (None, store st') \<and>
               length events = length (stateChanges agg) \<and>
               expected = Version agg - of_nat (length (stateChanges agg)) \<and>
               Version agg' = expected + of_nat (length (stateChanges agg))))"
proof (intro conjI impI)
  from Save_version [OF assms] show "Version agg' = Version agg" by (simp add: Version_def)
  from Save_success_clears [OF assms] show "stateChanges agg' = []" .
next
  assume "stateChanges agg = []"
  with assms show "st' = st" by (simp add: Save_def)
next
  assume "stateChanges agg \<noteq> []"
  from Save_success_call [OF assms this] obtain events where
    e: "length events = length (stateChanges agg)"
      "calls st' = calls st @
        [CallSaveEvents (AggID agg) (Version agg - of_nat (length (stateChanges agg))) events]"
      "SaveEvents r (store st) (AggID agg)
        (Version agg - of_nat (length (stateChanges agg))) events = (None, store st')"
    by blast
  have "Version agg' =
      (Version agg - of_nat (length (stateChanges agg))) + of_nat (length (stateChanges agg))"
    using Save_version [OF assms] by (simp add: Version_def)
  with e show "\<exists>expected events.
               calls st' = calls st @ [CallSaveEvents (AggID agg) expected events] \<and>
               SaveEvents r (store st) (AggID agg) expected events = (None, store st') \<and>
               length events = length (stateChanges agg) \<and>
               expected = Version agg - of_nat (length (stateChanges agg)) \<and>
               Version agg' = expected + of_nat (length (stateChanges agg))"
    by blast
qed

theorem Save_version_unchanged_witness:
  "Save (book_repo []) no_ctx pending_book empty_world =
     (None, fst (snd (Save (book_repo []) no_ctx pending_book empty_world)),
      snd (snd (Save (book_repo []) no_ctx pending_book empty_world))) \<and>
   stateChanges pending_book \<noteq> [] \<and>
   Version pending_book = 1 \<and> length (stateChanges pending_book) = 1 \<and>
   Version (fst (snd (Save (book_repo []) no_ctx pending_book empty_world))) = 1 \<and>
   stateChanges (fst (snd (Save (book_repo []) no_ctx pending_book empty_world))) = [] \<and>
   (\<exists>events.
      calls (snd (snd (Save (book_repo []) no_ctx pending_book empty_world))) =
        calls empty_world @ [CallSaveEvents (AggID pending_book) 0 events] \<and>
      length events = 1)"
proof -
  have h: "Save (book_repo []) no_ctx pending_book empty_world =
     (None, fst (snd (Save (book_repo []) no_ctx pending_book empty_world)),
      snd (snd (Save (book_repo []) no_ctx pending_book empty_world)))"
    by (simp add: book_fixture repo_defs)
  have v: "Version pending_book = 1" "length (stateChanges pending_book) = 1"
    "stateChanges pending_book \<noteq> []"
    by (simp_all add: pending_book_def Version_def)
  from Save_version_unchanged [OF h] v
  have "Version (fst (snd (Save (book_repo []) no_ctx pending_book empty_world))) = 1"
    and "stateChanges (fst (snd (Save (book_repo []) no_ctx pending_book empty_world))) = []"
    and "\<exists>events.
      calls (snd (snd (Save (book_repo []) no_ctx pending_book empty_world))) =
        calls empty_world @ [CallSaveEvents (AggID pending_book) 0 events] \<and>
      length events = 1"
    by auto
  with h v show ?thesis by blast
qed

section \<open>Load and Get\<close>

lemma Load_world:
  "Load r ident st = (res, st1) \<Longrightarrow> st1 = st\<lparr>calls := calls st @ [CallListEvents ident]\<rparr>"
  by (auto simp: Load_def Let_def split: sum.splits prod.splits)

text \<open>
  C8. When Load succeeds, Get returns the aggregate-does-not-exist error exactly when
  the loaded version is zero and the loaded aggregate otherwise. Get leaves the store
  as it was, and the only store call it makes is the ListEvents of its Load: no
  SaveEvents, hence no Save that reaches the store.
\<close>

theorem Get_spec:
  assumes "Load r ident st = (Inr agg, st1)"
  shows "Get r ident st =
           (if Version agg = 0 then Inl (Error ErrAggregateDoesNotExist) else Inr agg, st1) \<and>
         (fst (Get r ident st) = Inl (Error ErrAggregateDoesNotExist) \<longleftrightarrow> Version agg = 0) \<and>
         store (snd (Get r ident st)) = store st \<and>
         calls (snd (Get r ident st)) = calls st @ [CallListEvents ident]"
  using assms Load_world [OF assms] by (simp add: Get_def)

theorem Get_spec_witness:
  "Load (book_repo []) ''book-1'' book_world =
     (Inr (pending_book\<lparr>stateChanges := [], causationIDs := {''c1''}\<rparr>),
      book_world\<lparr>calls := [CallListEvents ''book-1'']\<rparr>) \<and>
   Get (book_repo []) ''book-1'' book_world =
     (Inr (pending_book\<lparr>stateChanges := [], causationIDs := {''c1''}\<rparr>),
      book_world\<lparr>calls := [CallListEvents ''book-1'']\<rparr>) \<and>
   fst (Load (book_repo []) ''book-2'' book_world) =
     Inr \<lparr>aggregate_id = ''book-2'', version = 0, root = zero_Book, stateChanges = [],
          causationIDs = {}\<rparr> \<and>
   fst (Get (book_repo []) ''book-2'' book_world) = Inl (Error ErrAggregateDoesNotExist) \<and>
   store (snd (Get (book_repo []) ''book-2'' book_world)) = store book_world \<and>
   calls (snd (Get (book_repo []) ''book-2'' book_world)) = [CallListEvents ''book-2'']"
proof -
  have l1: "Load (book_repo []) ''book-1'' book_world =
     (Inr (pending_book\<lparr>stateChanges := [], causationIDs := {''c1''}\<rparr>),
      book_world\<lparr>calls := [CallListEvents ''book-1'']\<rparr>)"
    by (simp add: book_fixture repo_defs book_defs CausationID_def)
  have l2: "Load (book_repo []) ''book-2'' book_world =
     (Inr \<lparr>aggregate_id = ''book-2'', version = 0, root = zero_Book, stateChanges = [],
          causationIDs = {}\<rparr>, book_world\<lparr>calls := [CallListEvents ''book-2'']\<rparr>)"
    by (simp add: book_fixture repo_defs)
  have v: "Version (pending_book\<lparr>stateChanges := [], causationIDs := {''c1''}\<rparr>) \<noteq> 0"
    "calls book_world = []"
    by (simp_all add: Version_def book_fixture)
  from Get_spec [OF l1] Get_spec [OF l2] l1 l2 v show ?thesis
    by (simp add: Version_def)
qed

lemma seen_causation_ids_Cons:
  "seen_causation_ids (event # events) = causation_of event \<union> seen_causation_ids events"
  by (simp add: seen_causation_ids_def)

lemma replay_fold:
  "map (\<lambda>e. UnmarshalNew r (Data e)) events = map Inr scs \<Longrightarrow>
   fold_ApplyStateChange r rt scs = Inr rt' \<Longrightarrow>
   replay r events (rt, ver, cids) =
     Inr (rt', (if events = [] then ver else AggregateVersion (last events)),
          cids \<union> seen_causation_ids events)"
proof (induction events arbitrary: scs rt ver cids)
  case Nil
  then show ?case by (simp add: seen_causation_ids_def)
next
  case (Cons event events)
  from Cons.prems(1) obtain sc scs' where
    scs: "scs = sc # scs'" and sc: "UnmarshalNew r (Data event) = Inr sc"
    and rest: "map (\<lambda>e. UnmarshalNew r (Data e)) events = map Inr scs'"
    by (cases scs) auto
  from Cons.prems(2) scs obtain rt1 where
    rt1: "ApplyStateChange r rt sc = Inr rt1" and f: "fold_ApplyStateChange r rt1 scs' = Inr rt'"
    by (auto split: sum.splits)
  have c: "(case Metadata event CausationID of Some (MString i) \<Rightarrow> insert i cids | _ \<Rightarrow> cids)
           = cids \<union> causation_of event"
    by (simp add: causation_of_def split: option.splits mvalue.splits)
  show ?case
    using sc rt1 Cons.IH [OF rest f] c
    by (simp add: seen_causation_ids_Cons Un_assoc)
qed

lemma sorted_last_Max:
  fixes xs :: "int list"
  assumes "sorted xs" "xs \<noteq> []"
  shows "last xs = Max (set xs)"
proof -
  have "\<forall>x\<in>set xs. x \<le> last xs"
  proof
    fix x assume "x \<in> set xs"
    then obtain i where i: "i < length xs" "xs ! i = x" by (auto simp: in_set_conv_nth)
    then have "xs ! i \<le> xs ! (length xs - 1)"
      using assms(1) by (intro sorted_nth_mono) auto
    with i assms(2) show "x \<le> last xs" by (simp add: last_conv_nth)
  qed
  moreover have "last xs \<in> set xs" using assms by simp
  ultimately show ?thesis by (simp add: Max_eqI [symmetric])
qed

text \<open>
  C7. Load lists the events of the id. When there are none it succeeds with version 0,
  the zero-value root, nothing pending and no causation identifier. When they decode
  to the state changes \<open>scs\<close> and folding those in order into the zero-value root
  with ApplyStateChange gives \<open>rt\<close>, Load returns the root \<open>rt\<close>, the aggregate
  version of the last event as the version, and every causation identifier found in
  the events' metadata; the store lists events in ascending version order, and then
  that version is the highest aggregate version among the events.
\<close>

theorem Load_replays:
  assumes listed: "ListEvents r (store st) ident = Inr events"
  shows "(events = [] \<longrightarrow>
            Load r ident st =
              (Inr \<lparr>aggregate_id = ident, version = 0, root = new_T r, stateChanges = [],
                    causationIDs = {}\<rparr>,
               st\<lparr>calls := calls st @ [CallListEvents ident]\<rparr>)) \<and>
         (map (\<lambda>e. UnmarshalNew r (Data e)) events = map Inr scs \<and>
          fold_ApplyStateChange r (new_T r) scs = Inr rt \<longrightarrow>
            Load r ident st =
              (Inr \<lparr>aggregate_id = ident,
                    version = (if events = [] then 0 else AggregateVersion (last events)),
                    root = rt, stateChanges = [],
                    causationIDs = seen_causation_ids events\<rparr>,
               st\<lparr>calls := calls st @ [CallListEvents ident]\<rparr>) \<and>
            (events \<noteq> [] \<and> sorted (map (sint \<circ> AggregateVersion) events) \<longrightarrow>
               sint (AggregateVersion (last events)) =
                 Max (set (map (sint \<circ> AggregateVersion) events))))"
proof (intro conjI impI)
  assume "events = []"
  with listed show "Load r ident st =
              (Inr \<lparr>aggregate_id = ident, version = 0, root = new_T r, stateChanges = [],
                    causationIDs = {}\<rparr>,
               st\<lparr>calls := calls st @ [CallListEvents ident]\<rparr>)"
    by (simp add: Load_def)
next
  assume "map (\<lambda>e. UnmarshalNew r (Data e)) events = map Inr scs \<and>
          fold_ApplyStateChange r (new_T r) scs = Inr rt"
  then have "replay r events (new_T r, 0, {}) =
     Inr (rt, (if events = [] then 0 else AggregateVersion (last events)),
          {} \<union> seen_causation_ids events)"
    by (simp add: replay_fold)
  with listed show "Load r ident st =
              (Inr \<lparr>aggregate_id = ident,
                    version = (if events = [] then 0 else AggregateVersion (last events)),
                    root = rt, stateChanges = [],
                    causationIDs = seen_causation_ids events\<rparr>,
               st\<lparr>calls := calls st @ [CallListEvents ident]\<rparr>)"
    by (simp add: Load_def)
next
  assume a: "events \<noteq> [] \<and> sorted (map (sint \<circ> AggregateVersion) events)"
  then have "last (map (sint \<circ> AggregateVersion) events) =
             Max (set (map (sint \<circ> AggregateVersion) events))"
    using sorted_last_Max [of "map (sint \<circ> AggregateVersion) events"] by simp
  with a show "sint (AggregateVersion (last events)) =
                 Max (set (map (sint \<circ> AggregateVersion) events))"
    by (simp add: last_map)
qed



theorem Load_replays_witness:
  "ListEvents (book_repo []) (store closed_book_world) ''book-1'' =
     Inr [created_event, closed_event] \<and>
   map (\<lambda>e. UnmarshalNew (book_repo []) (Data e)) [created_event, closed_event] =
     map Inr [BookCreated ''ledger'', BookClosed] \<and>
   fold_ApplyStateChange (book_repo []) (new_T (book_repo []))
     [BookCreated ''ledger'', BookClosed] = Inr closed_book \<and>
   sorted (map (sint \<circ> AggregateVersion) [created_event, closed_event]) \<and>
   Load (book_repo []) ''book-1'' closed_book_world =
     (Inr \<lparr>aggregate_id = ''book-1'', version = 2, root = closed_book, stateChanges = [],
           causationIDs = {''c1''}\<rparr>,
      closed_book_world\<lparr>calls := [CallListEvents ''book-1'']\<rparr>) \<and>
   sint (AggregateVersion (last [created_event, closed_event])) =
     Max (set (map (sint \<circ> AggregateVersion) [created_event, closed_event])) \<and>
   ListEvents (book_repo []) (store closed_book_world) ''book-2'' = Inr [] \<and>
   Load (book_repo []) ''book-2'' closed_book_world =
     (Inr \<lparr>aggregate_id = ''book-2'', version = 0, root = zero_Book, stateChanges = [],
           causationIDs = {}\<rparr>,
      closed_book_world\<lparr>calls := [CallListEvents ''book-2'']\<rparr>)"
proof -
  have l1: "ListEvents (book_repo []) (store closed_book_world) ''book-1'' =
     Inr [created_event, closed_event]"
    and l2: "ListEvents (book_repo []) (store closed_book_world) ''book-2'' = Inr []"
    by (simp_all add: book_repo_def closed_book_world_def mem_ListEvents_def)
  have d: "map (\<lambda>e. UnmarshalNew (book_repo []) (Data e)) [created_event, closed_event] =
     map Inr [BookCreated ''ledger'', BookClosed]"
    by (simp add: book_repo_def created_event_def closed_event_def)
  have f: "fold_ApplyStateChange (book_repo []) (new_T (book_repo []))
     [BookCreated ''ledger'', BookClosed] = Inr closed_book"
    by (simp add: book_repo_def closed_book_def zero_Book_def applyCreated_def applyClosed_def)
  have s: "sorted (map (sint \<circ> AggregateVersion) [created_event, closed_event])"
    by (simp add: created_event_def closed_event_def)
  have c: "seen_causation_ids [created_event, closed_event] = {''c1''}"
    by (simp add: seen_causation_ids_def causation_of_def created_event_def closed_event_def
        CausationID_def)
  have z: "new_T (book_repo []) = zero_Book" "calls closed_book_world = []"
    "AggregateVersion closed_event = 2"
    by (simp_all add: book_repo_def closed_book_world_def closed_event_def)
  from Load_replays [OF l1, of "[BookCreated ''ledger'', BookClosed]" closed_book]
    Load_replays [OF l2, of "[]" zero_Book] l1 l2 d f s c z
  show ?thesis by simp
qed

section \<open>GetOrCreate, Create and Update: what each does with a conflict\<close>

lemma default_id_world:
  "default_id r ident0 st = (res, st0) \<Longrightarrow> store st0 = store st \<and> calls st0 = calls st"
  by (auto simp: default_id_def split: if_splits sum.splits)

text \<open>
  C3. GetOrCreate on the id it settles on (the given one, or a generated one for an
  empty id), when Load succeeds. With a loaded version above zero it returns the loaded
  aggregate as it is: no command is applied, the store is untouched and ListEvents is
  the only store call. With a loaded version of zero it changes state with the command
  and Saves; when Save succeeds it returns the saved aggregate, and when Save fails
  with an error that is a concurrency conflict it Loads the id again and returns that
  Load's outcome, the re-loaded aggregate, not the conflict.
\<close>

theorem GetOrCreate_spec:
  assumes ident: "default_id r ident0 st = (Inr ident, st0)"
    and loaded: "Load r ident st0 = (Inr agg, st1)"
  shows "(0 <s Version agg \<longrightarrow>
            GetOrCreate r ctx ident0 cmd st = (Inr agg, st1) \<and>
            store st1 = store st \<and> calls st1 = calls st @ [CallListEvents ident]) \<and>
         (Version agg = 0 \<and> ChangeState r ctx agg cmd = Inr agg1 \<and>
          Save r ctx agg1 st1 = (None, agg2, st2) \<longrightarrow>
            GetOrCreate r ctx ident0 cmd st = (Inr agg2, st2)) \<and>
         (Version agg = 0 \<and> ChangeState r ctx agg cmd = Inr agg1 \<and>
          Save r ctx agg1 st1 = (Some e, agg2, st2) \<and> errors_Is e ErrConcurrentUpdate \<longrightarrow>
            GetOrCreate r ctx ident0 cmd st =
              (case Load r ident st2 of
                 (Inl f, st3) \<Rightarrow> (Inl (wrap ''load'' f), st3)
               | (Inr agg3, st3) \<Rightarrow> (Inr agg3, st3)) \<and>
            (Load r ident st2 = (Inr agg3, st3) \<longrightarrow>
               GetOrCreate r ctx ident0 cmd st = (Inr agg3, st3)))"
proof (intro conjI impI)
  assume "0 <s Version agg"
  with ident loaded show "GetOrCreate r ctx ident0 cmd st = (Inr agg, st1)"
    by (simp add: GetOrCreate_def)
  from default_id_world [OF ident] Load_world [OF loaded]
  show "store st1 = store st" "calls st1 = calls st @ [CallListEvents ident]"
    by simp_all
next
  assume "Version agg = 0 \<and> ChangeState r ctx agg cmd = Inr agg1 \<and>
          Save r ctx agg1 st1 = (None, agg2, st2)"
  with ident loaded show "GetOrCreate r ctx ident0 cmd st = (Inr agg2, st2)"
    by (simp add: GetOrCreate_def)
next
  assume a: "Version agg = 0 \<and> ChangeState r ctx agg cmd = Inr agg1 \<and>
          Save r ctx agg1 st1 = (Some e, agg2, st2) \<and> errors_Is e ErrConcurrentUpdate"
  with ident loaded show re: "GetOrCreate r ctx ident0 cmd st =
              (case Load r ident st2 of
                 (Inl f, st3) \<Rightarrow> (Inl (wrap ''load'' f), st3)
               | (Inr agg3, st3) \<Rightarrow> (Inr agg3, st3))"
    by (simp add: GetOrCreate_def)
  assume "Load r ident st2 = (Inr agg3, st3)"
  with re show "GetOrCreate r ctx ident0 cmd st = (Inr agg3, st3)" by simp
qed

text \<open>
  C4. Create with an empty id draws an identifier from the generator and goes on as
  Create with that identifier. When the loaded version is not zero it fails with
  aggregate-already-exists. When the Save after the state change fails, a concurrency
  conflict is returned as aggregate-already-exists and any other failure is returned
  as it came, under the context of the save step.
\<close>

theorem Create_spec:
  "(uuid_NewRandom r (uuid_count st) = Inr u \<and> u \<noteq> '''' \<longrightarrow>
      Create r ctx '''' cmd st = Create r ctx u cmd (st\<lparr>uuid_count := Suc (uuid_count st)\<rparr>)) \<and>
   (default_id r ident0 st = (Inr ident, st0) \<and> Load r ident st0 = (Inr agg, st1) \<longrightarrow>
      (Version agg \<noteq> 0 \<longrightarrow>
         Create r ctx ident0 cmd st = (Inl (Error ErrAggregateAlreadyExists), st1)) \<and>
      (Version agg = 0 \<and> ChangeState r ctx agg cmd = Inr agg1 \<and>
       Save r ctx agg1 st1 = (Some e, agg2, st2) \<longrightarrow>
         (errors_Is e ErrConcurrentUpdate \<longrightarrow>
            Create r ctx ident0 cmd st = (Inl (Error ErrAggregateAlreadyExists), st2)) \<and>
         (\<not> errors_Is e ErrConcurrentUpdate \<longrightarrow>
            Create r ctx ident0 cmd st = (Inl (Error (Errorf ''save'' e)), st2))))"
proof (intro conjI impI)
  assume "uuid_NewRandom r (uuid_count st) = Inr u \<and> u \<noteq> ''''"
  then show "Create r ctx '''' cmd st =
             Create r ctx u cmd (st\<lparr>uuid_count := Suc (uuid_count st)\<rparr>)"
    by (simp add: Create_def default_id_def)
next
  assume a: "default_id r ident0 st = (Inr ident, st0) \<and> Load r ident st0 = (Inr agg, st1)"
  {
    assume "Version agg \<noteq> 0"
    with a show "Create r ctx ident0 cmd st = (Inl (Error ErrAggregateAlreadyExists), st1)"
      by (simp add: Create_def)
  }
  assume b: "Version agg = 0 \<and> ChangeState r ctx agg cmd = Inr agg1 \<and>
       Save r ctx agg1 st1 = (Some e, agg2, st2)"
  {
    assume "errors_Is e ErrConcurrentUpdate"
    with a b show "Create r ctx ident0 cmd st = (Inl (Error ErrAggregateAlreadyExists), st2)"
      by (simp add: Create_def)
  }
  {
    assume "\<not> errors_Is e ErrConcurrentUpdate"
    with a b show "Create r ctx ident0 cmd st = (Inl (Error (Errorf ''save'' e)), st2)"
      by (simp add: Create_def)
  }
qed

lemma Save_calls:
  "Save r ctx agg st = (res, agg', st') \<Longrightarrow>
   calls st' = calls st \<or>
   (\<exists>events. calls st' = calls st @
      [CallSaveEvents (AggID agg) (Version agg - of_nat (length (stateChanges agg))) events])"
  by (auto simp: Save_def Let_def split: if_splits prod.splits sum.splits option.splits
      dest: build_events_frame)

text \<open>
  C5, amended. Update fails with aggregate-does-not-exist when the loaded version is
  zero. When the Save step fails with \<open>e\<close>, Update returns \<open>e\<close> wrapped under the
  context of the save step, not \<open>e\<close> itself; the wrapper is every error that \<open>e\<close> is
  (a concurrency conflict stays one for \<open>errors.Is\<close>). Update ends there, with no
  retry: after the ListEvents of its Load the store has seen at most the one
  SaveEvents call of that Save.
\<close>

theorem Update_spec:
  assumes loaded: "Load r ident st = (Inr agg, st1)"
  shows "(Version agg = 0 \<longrightarrow>
            Update r ctx ident cmd st = (Inl (Error ErrAggregateDoesNotExist), st1)) \<and>
         (Version agg \<noteq> 0 \<and> ChangeState r ctx agg cmd = Inr agg1 \<and>
          Save r ctx agg1 st1 = (Some e, agg2, st2) \<longrightarrow>
            Update r ctx ident cmd st = (Inl (Error (Errorf ''save'' e)), st2) \<and>
            (errors_Is (Errorf ''save'' e) ErrConcurrentUpdate \<longleftrightarrow>
               errors_Is e ErrConcurrentUpdate) \<and>
            (\<forall>target. errors_Is e target \<longrightarrow> errors_Is (Errorf ''save'' e) target) \<and>
            (calls st2 = calls st @ [CallListEvents ident] \<or>
             (\<exists>events. calls st2 = calls st @
                [CallListEvents ident,
                 CallSaveEvents (AggID agg1)
                   (Version agg1 - of_nat (length (stateChanges agg1))) events])))"
proof (intro conjI impI)
  assume "Version agg = 0"
  with loaded show "Update r ctx ident cmd st = (Inl (Error ErrAggregateDoesNotExist), st1)"
    by (simp add: Update_def)
next
  assume a: "Version agg \<noteq> 0 \<and> ChangeState r ctx agg cmd = Inr agg1 \<and>
          Save r ctx agg1 st1 = (Some e, agg2, st2)"
  with loaded show "Update r ctx ident cmd st = (Inl (Error (Errorf ''save'' e)), st2)"
    by (simp add: Update_def)
  show "errors_Is (Errorf ''save'' e) ErrConcurrentUpdate \<longleftrightarrow> errors_Is e ErrConcurrentUpdate"
    by simp
  show "\<forall>target. errors_Is e target \<longrightarrow> errors_Is (Errorf ''save'' e) target"
    by simp
  from a have s: "Save r ctx agg1 st1 = (Some e, agg2, st2)" by simp
  from Save_calls [OF s] Load_world [OF loaded]
  show "calls st2 = calls st @ [CallListEvents ident] \<or>
             (\<exists>events. calls st2 = calls st @
                [CallListEvents ident,
                 CallSaveEvents (AggID agg1)
                   (Version agg1 - of_nat (length (stateChanges agg1))) events])"
    by auto
qed

section \<open>The three policies on the books of the in-memory store\<close>

lemma book1_default_id:
  "default_id (book_repo rival) ''book-1'' w = (Inr ''book-1'', w)"
  by (simp add: default_id_def)

lemma Load_empty_world:
  "Load (book_repo rival) ''book-1'' empty_world =
     (Inr new_book, empty_world\<lparr>calls := [CallListEvents ''book-1'']\<rparr>)"
  by (simp add: book_fixture repo_defs)

lemma Load_book_world:
  "Load (book_repo rival) ''book-1'' book_world =
     (Inr stored_book, book_world\<lparr>calls := [CallListEvents ''book-1'']\<rparr>)"
  by (simp add: book_fixture repo_defs book_defs CausationID_def)

lemma ChangeState_new_book:
  "ChangeState (book_repo rival) no_ctx new_book [BookCreated ''ledger''] = Inr pending_book"
  by (simp add: book_fixture repo_defs book_defs)

lemma Save_raced:
  "Save (book_repo [created_event]) no_ctx pending_book
     (empty_world\<lparr>calls := [CallListEvents ''book-1'']\<rparr>) =
   (Some (Errorf ''save events'' ErrConcurrentUpdate), pending_book,
    \<lparr>store = (\<lambda>ident. if ident = ''book-1'' then [created_event] else []),
     uuid_count = 1, clock = 1,
     calls = [CallListEvents ''book-1'',
              CallSaveEvents ''book-1'' 0
                [\<lparr>ID = ''id'', AggregateID = ''book-1'', AggregateVersion = 1, Timestamp = 0,
                  Metadata = Map.empty, Data = BookCreated ''ledger''\<rparr>]]\<rparr>)"
  by (simp add: book_repo_def no_ctx_def empty_world_def pending_book_def mem_SaveEvents_def
      raced_SaveEvents_def repo_defs fun_eq_iff)

theorem GetOrCreate_spec_witness:
  "default_id (book_repo [created_event]) ''book-1'' book_world = (Inr ''book-1'', book_world) \<and>
   fst (Load (book_repo [created_event]) ''book-1'' book_world) = Inr stored_book \<and>
   0 <s Version stored_book \<and>
   fst (GetOrCreate (book_repo [created_event]) no_ctx ''book-1'' [BookCreated ''ledger'']
          book_world) = Inr stored_book \<and>
   calls (snd (GetOrCreate (book_repo [created_event]) no_ctx ''book-1''
          [BookCreated ''ledger''] book_world)) = [CallListEvents ''book-1''] \<and>
   fst (Load (book_repo [created_event]) ''book-1'' empty_world) = Inr new_book \<and>
   Version new_book = 0 \<and>
   ChangeState (book_repo [created_event]) no_ctx new_book [BookCreated ''ledger''] =
     Inr pending_book \<and>
   fst (Save (book_repo [created_event]) no_ctx pending_book
          (empty_world\<lparr>calls := [CallListEvents ''book-1'']\<rparr>)) =
     Some (Errorf ''save events'' ErrConcurrentUpdate) \<and>
   errors_Is (Errorf ''save events'' ErrConcurrentUpdate) ErrConcurrentUpdate \<and>
   fst (GetOrCreate (book_repo [created_event]) no_ctx ''book-1'' [BookCreated ''ledger'']
          empty_world) = Inr stored_book"
proof -
  let ?r = "book_repo [created_event]"
  let ?w2 = "\<lparr>store = (\<lambda>ident. if ident = ''book-1'' then [created_event] else []),
     uuid_count = 1, clock = 1,
     calls = [CallListEvents ''book-1'',
              CallSaveEvents ''book-1'' 0
                [\<lparr>ID = ''id'', AggregateID = ''book-1'', AggregateVersion = 1, Timestamp = 0,
                  Metadata = Map.empty, Data = BookCreated ''ledger''\<rparr>]]\<rparr>"
  have v: "0 <s Version stored_book" "Version new_book = 0" "calls book_world = []"
    by (simp_all add: Version_def stored_book_def pending_book_def new_book_def book_world_def
        word_sless_alt)
  have e: "errors_Is (Errorf ''save events'' ErrConcurrentUpdate) ErrConcurrentUpdate"
    by simp
  have re: "Load ?r ''book-1'' ?w2 =
      (Inr stored_book, ?w2\<lparr>calls := calls ?w2 @ [CallListEvents ''book-1'']\<rparr>)"
    by (simp add: book_fixture repo_defs book_defs CausationID_def)
  from GetOrCreate_spec [OF book1_default_id [of "[created_event]" book_world]
      Load_book_world [of "[created_event]"],
      where ctx = no_ctx and cmd = "[BookCreated ''ledger'']"] v
  have a: "GetOrCreate ?r no_ctx ''book-1'' [BookCreated ''ledger''] book_world =
      (Inr stored_book, book_world\<lparr>calls := [CallListEvents ''book-1'']\<rparr>)"
    by simp
  from GetOrCreate_spec [OF book1_default_id [of "[created_event]" empty_world]
      Load_empty_world [of "[created_event]"],
      where ctx = no_ctx and cmd = "[BookCreated ''ledger'']" and ?agg1.0 = pending_book
        and e = "Errorf ''save events'' ErrConcurrentUpdate" and ?agg2.0 = pending_book
        and ?st2.0 = ?w2 and ?agg3.0 = stored_book
        and ?st3.0 = "?w2\<lparr>calls := calls ?w2 @ [CallListEvents ''book-1'']\<rparr>"]
    v e ChangeState_new_book [of "[created_event]"] Save_raced re
  have b: "fst (GetOrCreate ?r no_ctx ''book-1'' [BookCreated ''ledger''] empty_world) =
      Inr stored_book"
    by simp
  show ?thesis
    using a b v e book1_default_id [of "[created_event]" book_world]
      Load_book_world [of "[created_event]"] Load_empty_world [of "[created_event]"]
      ChangeState_new_book [of "[created_event]"] Save_raced
    by simp
qed

theorem Create_spec_witness:
  "uuid_NewRandom (book_repo []) (uuid_count empty_world) = Inr ''id'' \<and>
   Create (book_repo []) no_ctx '''' [BookCreated ''ledger''] empty_world =
     Create (book_repo []) no_ctx ''id'' [BookCreated ''ledger'']
       (empty_world\<lparr>uuid_count := Suc (uuid_count empty_world)\<rparr>) \<and>
   fst (Load (book_repo []) ''book-1'' book_world) = Inr stored_book \<and>
   Version stored_book \<noteq> 0 \<and>
   fst (Create (book_repo []) no_ctx ''book-1'' [BookCreated ''ledger''] book_world) =
     Inl (Error ErrAggregateAlreadyExists) \<and>
   fst (Load (book_repo [created_event]) ''book-1'' empty_world) = Inr new_book \<and>
   Version new_book = 0 \<and>
   ChangeState (book_repo [created_event]) no_ctx new_book [BookCreated ''ledger''] =
     Inr pending_book \<and>
   fst (Save (book_repo [created_event]) no_ctx pending_book
          (snd (Load (book_repo [created_event]) ''book-1'' empty_world))) =
     Some (Errorf ''save events'' ErrConcurrentUpdate) \<and>
   errors_Is (Errorf ''save events'' ErrConcurrentUpdate) ErrConcurrentUpdate \<and>
   fst (Create (book_repo [created_event]) no_ctx ''book-1'' [BookCreated ''ledger'']
          empty_world) = Inl (Error ErrAggregateAlreadyExists) \<and>
   fst (Save no_entropy_repo no_ctx pending_book
          (snd (Load no_entropy_repo ''book-1'' empty_world))) =
     Some (Errorf ''generate event ID'' (ErrOther ''entropy'')) \<and>
   \<not> errors_Is (Errorf ''generate event ID'' (ErrOther ''entropy'')) ErrConcurrentUpdate \<and>
   fst (Create no_entropy_repo no_ctx ''book-1'' [BookCreated ''ledger''] empty_world) =
     Inl (Error (Errorf ''save'' (Errorf ''generate event ID'' (ErrOther ''entropy''))))"
proof -
  let ?cmd = "[BookCreated ''ledger'']"
  let ?w1 = "empty_world\<lparr>calls := [CallListEvents ''book-1'']\<rparr>"
  have u: "uuid_NewRandom (book_repo []) (uuid_count empty_world) = Inr ''id''"
    by (simp add: book_repo_def empty_world_def)
  have v: "Version stored_book \<noteq> 0" "Version new_book = 0"
    by (simp_all add: Version_def stored_book_def pending_book_def new_book_def)
  have e: "errors_Is (Errorf ''save events'' ErrConcurrentUpdate) ErrConcurrentUpdate"
    "\<not> errors_Is (Errorf ''generate event ID'' (ErrOther ''entropy'')) ErrConcurrentUpdate"
    by simp_all
  have d: "default_id no_entropy_repo ''book-1'' empty_world = (Inr ''book-1'', empty_world)"
    by (simp add: default_id_def)
  have l: "Load no_entropy_repo ''book-1'' empty_world = (Inr new_book, ?w1)"
    by (simp add: book_fixture repo_defs)
  have c: "ChangeState no_entropy_repo no_ctx new_book ?cmd = Inr pending_book"
    by (simp add: book_fixture repo_defs book_defs)
  have s: "fst (Save no_entropy_repo no_ctx pending_book ?w1) =
      Some (Errorf ''generate event ID'' (ErrOther ''entropy''))"
    by (simp add: book_fixture repo_defs)
  have s': "Save no_entropy_repo no_ctx pending_book ?w1 =
      (Some (Errorf ''generate event ID'' (ErrOther ''entropy'')),
       fst (snd (Save no_entropy_repo no_ctx pending_book ?w1)),
       snd (snd (Save no_entropy_repo no_ctx pending_book ?w1)))"
    using s by (metis prod.collapse)
  from Create_spec [where r = "book_repo []" and st = empty_world and u = "''id''"
      and ctx = no_ctx and cmd = ?cmd] u
  have p1: "Create (book_repo []) no_ctx '''' ?cmd empty_world =
     Create (book_repo []) no_ctx ''id'' ?cmd
       (empty_world\<lparr>uuid_count := Suc (uuid_count empty_world)\<rparr>)"
    by simp
  from Create_spec [where r = "book_repo []" and ?ident0.0 = "''book-1''" and st = book_world
      and ident = "''book-1''" and ?st0.0 = book_world and agg = stored_book
      and ?st1.0 = "book_world\<lparr>calls := [CallListEvents ''book-1'']\<rparr>"
      and ctx = no_ctx and cmd = ?cmd]
    book1_default_id [of "[]" book_world] Load_book_world [of "[]"] v
  have p2: "fst (Create (book_repo []) no_ctx ''book-1'' ?cmd book_world) =
     Inl (Error ErrAggregateAlreadyExists)"
    by simp
  from Create_spec [where r = "book_repo [created_event]" and ?ident0.0 = "''book-1''"
      and st = empty_world and ident = "''book-1''" and ?st0.0 = empty_world
      and agg = new_book and ?st1.0 = ?w1 and ctx = no_ctx and cmd = ?cmd
      and ?agg1.0 = pending_book and e = "Errorf ''save events'' ErrConcurrentUpdate"]
    book1_default_id [of "[created_event]" empty_world] Load_empty_world [of "[created_event]"]
    ChangeState_new_book [of "[created_event]"] Save_raced v e
  have p3: "fst (Create (book_repo [created_event]) no_ctx ''book-1'' ?cmd empty_world) =
     Inl (Error ErrAggregateAlreadyExists)"
    by simp
  from Create_spec [where r = no_entropy_repo and ?ident0.0 = "''book-1''"
      and st = empty_world and ident = "''book-1''" and ?st0.0 = empty_world
      and agg = new_book and ?st1.0 = ?w1 and ctx = no_ctx and cmd = ?cmd
      and ?agg1.0 = pending_book
      and e = "Errorf ''generate event ID'' (ErrOther ''entropy'')"
      and ?agg2.0 = "fst (snd (Save no_entropy_repo no_ctx pending_book ?w1))"
      and ?st2.0 = "snd (snd (Save no_entropy_repo no_ctx pending_book ?w1))"] d l c s' v e
  have p4: "fst (Create no_entropy_repo no_ctx ''book-1'' ?cmd empty_world) =
     Inl (Error (Errorf ''save'' (Errorf ''generate event ID'' (ErrOther ''entropy''))))"
    by simp
  show ?thesis
    using u v e p1 p2 p3 p4 l s Load_book_world [of "[]"] Load_empty_world [of "[created_event]"]
      ChangeState_new_book [of "[created_event]"] Save_raced
    by simp
qed

lemma ChangeState_stored_book:
  "ChangeState (book_repo rival) no_ctx stored_book [BookClosed] = Inr closing_book"
  by (simp add: book_fixture repo_defs book_defs)

lemma Save_closing_raced:
  "fst (Save (book_repo [closed_event]) no_ctx closing_book
          (book_world\<lparr>calls := [CallListEvents ''book-1'']\<rparr>)) =
     Some (Errorf ''save events'' ErrConcurrentUpdate)"
  by (simp add: book_fixture repo_defs)

theorem Update_spec_witness:
  "fst (Load (book_repo []) ''book-1'' empty_world) = Inr new_book \<and>
   Version new_book = 0 \<and>
   fst (Update (book_repo []) no_ctx ''book-1'' [BookClosed] empty_world) =
     Inl (Error ErrAggregateDoesNotExist) \<and>
   fst (Load (book_repo [closed_event]) ''book-1'' book_world) = Inr stored_book \<and>
   Version stored_book \<noteq> 0 \<and>
   ChangeState (book_repo [closed_event]) no_ctx stored_book [BookClosed] = Inr closing_book \<and>
   fst (Save (book_repo [closed_event]) no_ctx closing_book
          (snd (Load (book_repo [closed_event]) ''book-1'' book_world))) =
     Some (Errorf ''save events'' ErrConcurrentUpdate) \<and>
   fst (Update (book_repo [closed_event]) no_ctx ''book-1'' [BookClosed] book_world) =
     Inl (Error (Errorf ''save'' (Errorf ''save events'' ErrConcurrentUpdate))) \<and>
   errors_Is (Errorf ''save'' (Errorf ''save events'' ErrConcurrentUpdate)) ErrConcurrentUpdate"
proof -
  let ?r = "book_repo [closed_event]"
  let ?w1 = "book_world\<lparr>calls := [CallListEvents ''book-1'']\<rparr>"
  let ?e = "Errorf ''save events'' ErrConcurrentUpdate"
  have v: "Version stored_book \<noteq> 0" "Version new_book = 0"
    by (simp_all add: Version_def stored_book_def pending_book_def new_book_def)
  have s: "Save ?r no_ctx closing_book ?w1 =
      (Some ?e, fst (snd (Save ?r no_ctx closing_book ?w1)),
       snd (snd (Save ?r no_ctx closing_book ?w1)))"
    using Save_closing_raced by (metis prod.collapse)
  from Update_spec [OF Load_empty_world [of "[]"], where ctx = no_ctx and cmd = "[BookClosed]"] v
  have p1: "fst (Update (book_repo []) no_ctx ''book-1'' [BookClosed] empty_world) =
     Inl (Error ErrAggregateDoesNotExist)"
    by simp
  from Update_spec [OF Load_book_world [of "[closed_event]"], where ctx = no_ctx
      and cmd = "[BookClosed]" and ?agg1.0 = closing_book and e = ?e
      and ?agg2.0 = "fst (snd (Save ?r no_ctx closing_book ?w1))"
      and ?st2.0 = "snd (snd (Save ?r no_ctx closing_book ?w1))"]
    v s ChangeState_stored_book [of "[closed_event]"]
  have p2: "fst (Update ?r no_ctx ''book-1'' [BookClosed] book_world) =
     Inl (Error (Errorf ''save'' ?e)) \<and> errors_Is (Errorf ''save'' ?e) ErrConcurrentUpdate"
    by simp
  show ?thesis
    using v p1 p2 Load_empty_world [of "[]"] Load_book_world [of "[closed_event]"]
      ChangeState_stored_book [of "[closed_event]"] Save_closing_raced
    by simp
qed

text \<open>
  Against C5 as it is worded: a rival closes the stored book between the Load and the
  Save of an Update. Save fails with the conflict under its own context, and Update
  returns a different error value: that one, wrapped again.
\<close>

theorem Update_unchanged_counterexample:
  "fst (Load (book_repo [closed_event]) ''book-1'' book_world) = Inr stored_book \<and>
   Version stored_book \<noteq> 0 \<and>
   ChangeState (book_repo [closed_event]) no_ctx stored_book [BookClosed] = Inr closing_book \<and>
   fst (Save (book_repo [closed_event]) no_ctx closing_book
          (snd (Load (book_repo [closed_event]) ''book-1'' book_world))) =
     Some (Errorf ''save events'' ErrConcurrentUpdate) \<and>
   fst (Update (book_repo [closed_event]) no_ctx ''book-1'' [BookClosed] book_world) \<noteq>
     Inl (Error (Errorf ''save events'' ErrConcurrentUpdate))"
  by (simp add: Update_def book_fixture repo_defs book_defs CausationID_def)

section \<open>Create with a command that changes nothing\<close>

lemma Load_no_events:
  "ListEvents r (store st) ident = Inr [] \<Longrightarrow>
   Load r ident st =
     (Inr \<lparr>aggregate_id = ident, version = 0, root = new_T r, stateChanges = [],
           causationIDs = {}\<rparr>,
      st\<lparr>calls := calls st @ [CallListEvents ident]\<rparr>)"
  by (simp add: Load_def)

text \<open>
  C10. An id with no stored events and a command for which ProcessCommand, on the
  zero-value root, returns no state change: Create succeeds and returns an aggregate
  of version 0 with nothing pending; the store is as before and has seen no SaveEvents
  call, only the ListEvents of the Load; a Get of the id right after still fails with
  aggregate-does-not-exist.
\<close>

theorem Create_no_state_changes:
  assumes ident: "default_id r ident0 st = (Inr ident, st0)"
    and none: "ListEvents r (store st) ident = Inr []"
    and noop: "ProcessCommand r (new_T r) cmd = Inr []"
  shows "\<exists>agg st'.
      Create r ctx ident0 cmd st = (Inr agg, st') \<and>
      Version agg = 0 \<and> AggID agg = ident \<and> stateChanges agg = [] \<and>
      store st' = store st \<and> calls st' = calls st @ [CallListEvents ident] \<and>
      fst (Get r ident st') = Inl (Error ErrAggregateDoesNotExist)"
proof -
  define agg :: "('d, 'c) Aggregate" where
    "agg = \<lparr>aggregate_id = ident, version = 0, root = new_T r, stateChanges = [],
            causationIDs = {}\<rparr>"
  define st1 where "st1 = st0\<lparr>calls := calls st0 @ [CallListEvents ident]\<rparr>"
  from default_id_world [OF ident] have w0: "store st0 = store st" "calls st0 = calls st"
    by simp_all
  have l: "Load r ident st0 = (Inr agg, st1)"
    using Load_no_events [of r st0 ident] none w0 by (simp add: agg_def st1_def)
  have c: "ChangeState r ctx agg cmd = Inr agg"
    using noop by (simp add: ChangeState_def agg_def)
  have s: "Save r ctx agg st1 = (None, agg, st1)"
    by (simp add: Save_def agg_def)
  have v: "Version agg = 0" by (simp add: Version_def agg_def)
  have cr: "Create r ctx ident0 cmd st = (Inr agg, st1)"
    using ident l c s v by (simp add: Create_def)
  have "ListEvents r (store st1) ident = Inr []"
    using none w0 by (simp add: st1_def)
  from Load_no_events [OF this]
  have g: "fst (Get r ident st1) = Inl (Error ErrAggregateDoesNotExist)"
    by (simp add: Get_def Version_def)
  show ?thesis
    using cr v g w0 by (intro exI [of _ agg] exI [of _ st1]) (simp add: agg_def st1_def AggID_def)
qed

theorem Create_no_state_changes_witness:
  "default_id (book_repo []) ''book-1'' empty_world = (Inr ''book-1'', empty_world) \<and>
   ListEvents (book_repo []) (store empty_world) ''book-1'' = Inr [] \<and>
   ProcessCommand (book_repo []) (new_T (book_repo [])) [] = Inr [] \<and>
   (\<exists>agg st'.
      Create (book_repo []) no_ctx ''book-1'' [] empty_world = (Inr agg, st') \<and>
      Version agg = 0 \<and> AggID agg = ''book-1'' \<and> stateChanges agg = [] \<and>
      store st' = store empty_world \<and>
      calls st' = calls empty_world @ [CallListEvents ''book-1''] \<and>
      fst (Get (book_repo []) ''book-1'' st') = Inl (Error ErrAggregateDoesNotExist))"
proof -
  have h1: "default_id (book_repo []) ''book-1'' empty_world = (Inr ''book-1'', empty_world)"
    by (simp add: default_id_def)
  have h2: "ListEvents (book_repo []) (store empty_world) ''book-1'' = Inr []"
    by (simp add: book_repo_def empty_world_def mem_ListEvents_def)
  have h3: "ProcessCommand (book_repo []) (new_T (book_repo [])) [] = Inr []"
    by (simp add: book_repo_def)
  from Create_no_state_changes [OF h1 h2 h3, of no_ctx] h1 h2 h3 show ?thesis by blast
qed

section \<open>Book.ApplyStateChange: handled payloads and the default branch\<close>

lemma set_balance_ok:
  "account_at b k \<noteq> None \<Longrightarrow>
   \<exists>b'. set_balance b k v = Inr b' \<and> (\<forall>k'. account_at b' k' \<noteq> None \<longleftrightarrow> account_at b k' \<noteq> None)"
  by (auto simp: set_balance_def account_at_def split: option.splits)

text \<open>
  C9, amended. The payload types the Book handles are BookCreated, BookClosed,
  BookAccountAdded and BookTransactionEntered. For a payload of one of them
  ApplyStateChange never reaches the panic of the default branch, and it completes
  whenever the Book can take the payload: always for BookCreated and BookClosed, with
  the accounts map allocated for BookAccountAdded, with both accounts present for
  BookTransactionEntered. For a payload of any other type it panics in the default
  branch; it has no error return.
\<close>

theorem Book_ApplyStateChange_spec:
  "(handled sc \<longleftrightarrow>
      (\<exists>d. sc = BookCreated d) \<or> sc = BookClosed \<or> (\<exists>n t. sc = BookAccountAdded n t) \<or>
      (\<exists>ts debited credited amount dn cn.
         sc = BookTransactionEntered ts debited credited amount dn cn)) \<and>
   (handled sc \<longrightarrow>
      (\<forall>T. Book_ApplyStateChange b sc \<noteq> Inl (PanicValue (''unexpected state change: '' @ T))) \<and>
      (applicable b sc \<longrightarrow> (\<exists>b'. Book_ApplyStateChange b sc = Inr b'))) \<and>
   (\<not> handled sc \<longrightarrow>
      (\<exists>T. Book_ApplyStateChange b sc = Inl (PanicValue (''unexpected state change: '' @ T))))"
proof (cases sc)
  case (BookCreated d)
  then show ?thesis by (simp add: applyCreated_def)
next
  case BookClosed
  then show ?thesis by (simp add: applyClosed_def)
next
  case (BookAccountAdded n t)
  then show ?thesis by (auto simp: applyAccountAdded_def split: option.splits)
next
  case (BookTransactionEntered ts debited credited amount dn cn)
  have nopanic: "\<And>T. Book_ApplyStateChange b sc \<noteq>
      Inl (PanicValue (''unexpected state change: '' @ T))"
    using BookTransactionEntered
    by (auto simp: applyTransactionEntered_def set_balance_def split: option.splits sum.splits)
  have "\<exists>b'. Book_ApplyStateChange b sc = Inr b'" if "applicable b sc"
  proof -
    from that BookTransactionEntered
    have a: "account_at b debited \<noteq> None" "account_at b credited \<noteq> None" by simp_all
    from set_balance_ok [OF a(1), of dn] obtain b1 where
      b1: "set_balance b debited dn = Inr b1" "account_at b1 credited \<noteq> None"
      using a(2) by blast
    from set_balance_ok [OF b1(2), of cn] obtain b2 where
      "set_balance b1 credited cn = Inr b2" by blast
    with b1 BookTransactionEntered show ?thesis
      by (simp add: applyTransactionEntered_def)
  qed
  with nopanic BookTransactionEntered show ?thesis by simp
next
  case (OtherMessage T)
  then show ?thesis by simp
qed

theorem Book_ApplyStateChange_spec_witness:
  "handled (BookCreated ''ledger'') \<and> applicable zero_Book (BookCreated ''ledger'') \<and>
   (\<exists>b'. Book_ApplyStateChange zero_Book (BookCreated ''ledger'') = Inr b') \<and>
   handled (BookAccountAdded ''cash'' 1) \<and>
   applicable closed_book (BookAccountAdded ''cash'' 1) \<and>
   (\<exists>b'. Book_ApplyStateChange closed_book (BookAccountAdded ''cash'' 1) = Inr b') \<and>
   \<not> handled (OtherMessage ''BookReopened'') \<and>
   (\<exists>T. Book_ApplyStateChange zero_Book (OtherMessage ''BookReopened'') =
      Inl (PanicValue (''unexpected state change: '' @ T)))"
  using Book_ApplyStateChange_spec [of "BookCreated ''ledger''" zero_Book]
    Book_ApplyStateChange_spec [of "BookAccountAdded ''cash'' 1" closed_book]
    Book_ApplyStateChange_spec [of "OtherMessage ''BookReopened''" zero_Book]
  by (simp add: closed_book_def)

text \<open>
  Against C9 as it is worded: BookAccountAdded is a handled payload type, and on the
  zero-value Book, whose accounts map is nil, ApplyStateChange does not complete: the
  map write panics.
\<close>

theorem Book_ApplyStateChange_counterexample:
  "handled (BookAccountAdded ''cash'' 1) \<and>
   Book_ApplyStateChange zero_Book (BookAccountAdded ''cash'' 1) =
     Inl (PanicRuntime ''assignment to entry in nil map'')"
  by (simp add: applyAccountAdded_def zero_Book_def)

end
